theory Spec2Isabelle
  imports Complex_Main
begin

section \<open>Board encoder (training/board\_encoder.py)\<close>

text \<open>
  The encoder reads a python-chess \<open>Board\<close> through five queries only: the piece on a
  square, the side to move, the two castling-right queries per colour and the en-passant
  square. A position is modelled as the record of the answers to these queries.
  Squares are numbered \<open>a1 = 0, b1 = 1, ..., h8 = 63\<close>; python-chess numbers the
  piece types \<open>PAWN = 1\<close> to \<open>KING = 6\<close>.
\<close>

datatype color = WHITE | BLACK

datatype piece_type = PAWN | KNIGHT | BISHOP | ROOK | QUEEN | KING

fun piece_type_num :: "piece_type \<Rightarrow> nat" where
  "piece_type_num PAWN = 1"
| "piece_type_num KNIGHT = 2"
| "piece_type_num BISHOP = 3"
| "piece_type_num ROOK = 4"
| "piece_type_num QUEEN = 5"
| "piece_type_num KING = 6"

record piece =
  piece_type :: piece_type
  color :: color

record board =
  piece_at :: "nat \<Rightarrow> piece option"
  turn :: color
  has_kingside_castling_rights :: "color \<Rightarrow> bool"
  has_queenside_castling_rights :: "color \<Rightarrow> bool"
  ep_square :: "nat option"

definition SQUARES :: "nat list" where
  "SQUARES = [0..<64]"

definition square_rank :: "nat \<Rightarrow> nat" where
  "square_rank square = square div 8"

definition square_file :: "nat \<Rightarrow> nat" where
  "square_file square = square mod 8"

definition NUM_CHANNELS :: nat where "NUM_CHANNELS = 18"
definition WHITE_PIECE_OFFSET :: nat where "WHITE_PIECE_OFFSET = 0"
definition BLACK_PIECE_OFFSET :: nat where "BLACK_PIECE_OFFSET = 6"
definition SIDE_TO_MOVE_CHANNEL :: nat where "SIDE_TO_MOVE_CHANNEL = 12"
definition CASTLING_WK_CHANNEL :: nat where "CASTLING_WK_CHANNEL = 13"
definition CASTLING_WQ_CHANNEL :: nat where "CASTLING_WQ_CHANNEL = 14"
definition CASTLING_BK_CHANNEL :: nat where "CASTLING_BK_CHANNEL = 15"
definition CASTLING_BQ_CHANNEL :: nat where "CASTLING_BQ_CHANNEL = 16"
definition EN_PASSANT_CHANNEL :: nat where "EN_PASSANT_CHANNEL = 17"

text \<open>
  The numpy array \<open>encoding\<close> of shape \<open>[18, 8, 8]\<close> is a list of planes, each a list of
  rows, indexed \<open>[channel][rank][file]\<close>. Its elements are the float32 values \<open>0.0\<close> and
  \<open>1.0\<close>, written as the real numbers \<open>0\<close> and \<open>1\<close>.
\<close>

type_synonym plane = "real list list"
type_synonym encoding = "plane list"

definition np_zeros :: "nat \<Rightarrow> nat \<Rightarrow> nat \<Rightarrow> encoding" where
  "np_zeros c h w = replicate c (replicate h (replicate w 0))"

text \<open>\<open>encoding[channel, rank, file] = v\<close>\<close>

definition set_cell :: "encoding \<Rightarrow> nat \<Rightarrow> nat \<Rightarrow> nat \<Rightarrow> real \<Rightarrow> encoding" where
  "set_cell enc channel rank file v =
     enc[channel := (enc ! channel)[rank := (enc ! channel ! rank)[file := v]]]"

text \<open>\<open>encoding[channel, :, :] = v\<close>\<close>

definition fill_plane :: "encoding \<Rightarrow> nat \<Rightarrow> real \<Rightarrow> encoding" where
  "fill_plane enc channel v = enc[channel := map (map (\<lambda>_. v)) (enc ! channel)]"

text \<open>\<open>encoding[channel, :, file] = v\<close>\<close>

definition fill_column :: "encoding \<Rightarrow> nat \<Rightarrow> nat \<Rightarrow> real \<Rightarrow> encoding" where
  "fill_column enc channel file v = enc[channel := map (\<lambda>row. row[file := v]) (enc ! channel)]"

text \<open>One iteration of the loop over \<open>chess.SQUARES\<close>.\<close>

definition encode_square :: "board \<Rightarrow> encoding \<Rightarrow> nat \<Rightarrow> encoding" where
  "encode_square b enc square =
     (case piece_at b square of
        None \<Rightarrow> enc
      | Some p \<Rightarrow>
          (let rank = square_rank square;
               file = square_file square;
               piece_index = piece_type_num (piece_type p) - 1;
               channel = (if color p = WHITE then WHITE_PIECE_OFFSET + piece_index
                          else BLACK_PIECE_OFFSET + piece_index)
           in set_cell enc channel rank file 1))"

definition encode_board :: "board \<Rightarrow> encoding" where
  "encode_board b =
     (let encoding = np_zeros NUM_CHANNELS 8 8;
          encoding = foldl (encode_square b) encoding SQUARES;
          encoding = (if turn b = WHITE then fill_plane encoding SIDE_TO_MOVE_CHANNEL 1
                      else encoding);
          encoding = (if has_kingside_castling_rights b WHITE
                      then fill_plane encoding CASTLING_WK_CHANNEL 1 else encoding);
          encoding = (if has_queenside_castling_rights b WHITE
                      then fill_plane encoding CASTLING_WQ_CHANNEL 1 else encoding);
          encoding = (if has_kingside_castling_rights b BLACK
                      then fill_plane encoding CASTLING_BK_CHANNEL 1 else encoding);
          encoding = (if has_queenside_castling_rights b BLACK
                      then fill_plane encoding CASTLING_BQ_CHANNEL 1 else encoding);
          encoding = (case ep_square b of
                        None \<Rightarrow> encoding
                      | Some sq \<Rightarrow> fill_column encoding EN_PASSANT_CHANNEL (square_file sq) 1)
      in encoding)"

subsection \<open>Notions used to state the encoder's properties\<close>

text \<open>The array has shape \<open>[c, h, w]\<close>: \<open>c\<close> planes of \<open>h\<close> rows of \<open>w\<close> cells.\<close>

definition has_shape :: "encoding \<Rightarrow> nat \<Rightarrow> nat \<Rightarrow> nat \<Rightarrow> bool" where
  "has_shape enc c h w =
     (length enc = c \<and> (\<forall>i<c. length (enc ! i) = h \<and> (\<forall>j<h. length (enc ! i ! j) = w)))"

text \<open>The channel the loop body computes for a piece.\<close>

definition piece_channel :: "piece \<Rightarrow> nat" where
  "piece_channel p =
     (if color p = WHITE then WHITE_PIECE_OFFSET + (piece_type_num (piece_type p) - 1)
      else BLACK_PIECE_OFFSET + (piece_type_num (piece_type p) - 1))"

text \<open>Square \<open>sq\<close> holds a piece that the loop body writes to cell \<open>[c, r, f]\<close>.\<close>

definition occupies :: "board \<Rightarrow> nat \<Rightarrow> nat \<Rightarrow> nat \<Rightarrow> nat \<Rightarrow> bool" where
  "occupies b sq c r f =
     (case piece_at b sq of None \<Rightarrow> False
      | Some p \<Rightarrow> piece_channel p = c \<and> square_rank sq = r \<and> square_file sq = f)"

text \<open>The array after each group of statements of \<open>encode_board\<close>.\<close>

definition stage_pieces :: "board \<Rightarrow> encoding" where
  "stage_pieces b = foldl (encode_square b) (np_zeros NUM_CHANNELS 8 8) SQUARES"

definition stage_turn :: "board \<Rightarrow> encoding" where
  "stage_turn b = (if turn b = WHITE then fill_plane (stage_pieces b) SIDE_TO_MOVE_CHANNEL 1
                   else stage_pieces b)"

definition stage_castling :: "board \<Rightarrow> encoding" where
  "stage_castling b =
     (let encoding = stage_turn b;
          encoding = (if has_kingside_castling_rights b WHITE
                      then fill_plane encoding CASTLING_WK_CHANNEL 1 else encoding);
          encoding = (if has_queenside_castling_rights b WHITE
                      then fill_plane encoding CASTLING_WQ_CHANNEL 1 else encoding);
          encoding = (if has_kingside_castling_rights b BLACK
                      then fill_plane encoding CASTLING_BK_CHANNEL 1 else encoding);
          encoding = (if has_queenside_castling_rights b BLACK
                      then fill_plane encoding CASTLING_BQ_CHANNEL 1 else encoding)
      in encoding)"

text \<open>
  The fixed ordinal of a piece kind within its band of six planes, as the specification
  words it: pawn, knight, bishop, rook, queen, king are 0 to 5.
\<close>

fun kind_ordinal :: "piece_type \<Rightarrow> nat" where
  "kind_ordinal PAWN = 0"
| "kind_ordinal KNIGHT = 1"
| "kind_ordinal BISHOP = 2"
| "kind_ordinal ROOK = 3"
| "kind_ordinal QUEEN = 4"
| "kind_ordinal KING = 5"

text \<open>The four castling permissions, the query answering each, and the plane of each.\<close>

datatype castling_right = WK | WQ | BK | BQ

fun has_castling_right :: "board \<Rightarrow> castling_right \<Rightarrow> bool" where
  "has_castling_right b WK = has_kingside_castling_rights b WHITE"
| "has_castling_right b WQ = has_queenside_castling_rights b WHITE"
| "has_castling_right b BK = has_kingside_castling_rights b BLACK"
| "has_castling_right b BQ = has_queenside_castling_rights b BLACK"

fun castling_channel :: "castling_right \<Rightarrow> nat" where
  "castling_channel WK = CASTLING_WK_CHANNEL"
| "castling_channel WQ = CASTLING_WQ_CHANNEL"
| "castling_channel BK = CASTLING_BK_CHANNEL"
| "castling_channel BQ = CASTLING_BQ_CHANNEL"

text \<open>
  A concrete position: the two kings on e1 and e8, a white pawn that has just made the
  double step to e4 (en-passant square e3), Black to move, and White's kingside
  castling permission only.
\<close>

definition example_board :: board where
  "example_board =
     \<lparr>piece_at = (\<lambda>_. None)
        (4 \<mapsto> \<lparr>piece_type = KING, color = WHITE\<rparr>,
         60 \<mapsto> \<lparr>piece_type = KING, color = BLACK\<rparr>,
         28 \<mapsto> \<lparr>piece_type = PAWN, color = WHITE\<rparr>),
      turn = BLACK,
      has_kingside_castling_rights = (\<lambda>c. c = WHITE),
      has_queenside_castling_rights = (\<lambda>c. False),
      ep_square = Some 20\<rparr>"

section \<open>Evaluation network (training/model.py)\<close>

subsection \<open>Tensors and errors\<close>

text \<open>
  A tensor is its shape together with its elements, read by index. A four-dimensional
  tensor has shape \<open>[batch, channel, height, width]\<close>, a two-dimensional one
  \<open>[batch, feature]\<close>. Only the elements at indices inside the shape belong to the
  tensor. Elements are real numbers, that is, finite values under exact arithmetic:
  the rounding, overflow, infinities and NaN of float32 arithmetic are not represented.
\<close>

record tensor4 =
  dimB :: nat
  dimC :: nat
  dimH :: nat
  dimW :: nat
  elem :: "nat \<Rightarrow> nat \<Rightarrow> nat \<Rightarrow> nat \<Rightarrow> real"

record tensor2 =
  rows :: nat
  cols :: nat
  elem2 :: "nat \<Rightarrow> nat \<Rightarrow> real"

text \<open>
  The exceptions PyTorch raises on operands of the wrong shape: \<open>RuntimeError\<close> from
  convolution, linear layers, \<open>view\<close> and a normalisation whose channel count does not
  match; \<open>ValueError\<close> from a training-mode normalisation over a single value per channel.
\<close>

datatype error = RuntimeError | ValueError

definition then_do :: "error + 'a \<Rightarrow> ('a \<Rightarrow> error + 'b) \<Rightarrow> error + 'b" where
  "then_do r f = (case r of Inl e \<Rightarrow> Inl e | Inr v \<Rightarrow> f v)"

subsection \<open>Layers of \<open>torch.nn\<close> as the module uses them\<close>

text \<open>
  \<open>nn.Conv2d(in_channels, out_channels, kernel_size, padding, bias=False)\<close> with the
  default stride 1, dilation 1, one group and zero padding. The weight has shape
  \<open>[out_channels, in_channels, kernel_size, kernel_size]\<close>.
\<close>

record conv2d =
  in_channels :: nat
  out_channels :: nat
  kernel_size :: nat
  padding :: nat
  conv_weight :: "nat \<Rightarrow> nat \<Rightarrow> nat \<Rightarrow> nat \<Rightarrow> real"

text \<open>The input surrounded by \<open>p\<close> rows and columns of zeros, read at a padded index.\<close>

definition padded :: "tensor4 \<Rightarrow> nat \<Rightarrow> nat \<Rightarrow> nat \<Rightarrow> nat \<Rightarrow> nat \<Rightarrow> real" where
  "padded x p b c i j =
     (if p \<le> i \<and> i - p < dimH x \<and> p \<le> j \<and> j - p < dimW x
      then elem x b c (i - p) (j - p) else 0)"

definition conv2d_forward :: "conv2d \<Rightarrow> tensor4 \<Rightarrow> error + tensor4" where
  "conv2d_forward cv x =
     (if dimC x \<noteq> in_channels cv then Inl RuntimeError
      else if dimH x + 2 * padding cv < kernel_size cv
              \<or> dimW x + 2 * padding cv < kernel_size cv then Inl RuntimeError
      else Inr \<lparr>dimB = dimB x,
                dimC = out_channels cv,
                dimH = dimH x + 2 * padding cv - kernel_size cv + 1,
                dimW = dimW x + 2 * padding cv - kernel_size cv + 1,
                elem = (\<lambda>b oc i j.
                  \<Sum>c<in_channels cv. \<Sum>di<kernel_size cv. \<Sum>dj<kernel_size cv.
                    conv_weight cv oc c di dj * padded x (padding cv) b c (i + di) (j + dj))\<rparr>)"

text \<open>
  \<open>nn.BatchNorm2d(num_features)\<close> with the defaults \<open>eps = 1e-5\<close>, \<open>affine = True\<close> and
  \<open>track_running_stats = True\<close>. Its parameters are \<open>weight\<close> and \<open>bias\<close>; the running
  mean and variance are buffers. In training mode each channel is normalised with the
  mean and the biased variance of the batch (over batch, height and width), in
  inference mode with the running estimates. The update of the running estimates that
  a training-mode call performs does not show in the value \<open>forward\<close> returns and is left
  out.
\<close>

record batchnorm2d =
  num_features :: nat
  bn_weight :: "nat \<Rightarrow> real"
  bn_bias :: "nat \<Rightarrow> real"
  running_mean :: "nat \<Rightarrow> real"
  running_var :: "nat \<Rightarrow> real"

definition bn_eps :: real where
  "bn_eps = 1 / 100000"

definition batch_mean :: "tensor4 \<Rightarrow> nat \<Rightarrow> real" where
  "batch_mean x c =
     (\<Sum>b<dimB x. \<Sum>i<dimH x. \<Sum>j<dimW x. elem x b c i j) / real (dimB x * dimH x * dimW x)"

definition batch_var :: "tensor4 \<Rightarrow> nat \<Rightarrow> real" where
  "batch_var x c =
     (\<Sum>b<dimB x. \<Sum>i<dimH x. \<Sum>j<dimW x. (elem x b c i j - batch_mean x c)\<^sup>2)
       / real (dimB x * dimH x * dimW x)"

definition batchnorm2d_forward :: "bool \<Rightarrow> batchnorm2d \<Rightarrow> tensor4 \<Rightarrow> error + tensor4" where
  "batchnorm2d_forward training bn x =
     (if dimC x \<noteq> num_features bn then Inl RuntimeError
      else if training \<and> dimB x * dimH x * dimW x = 1 then Inl ValueError
      else
        let mean = (if training then batch_mean x else running_mean bn);
            var = (if training then batch_var x else running_var bn)
        in Inr (x\<lparr>elem := (\<lambda>b c i j.
                  (elem x b c i j - mean c) / sqrt (var c + bn_eps) * bn_weight bn c
                    + bn_bias bn c)\<rparr>))"

text \<open>\<open>nn.Linear(in_features, out_features)\<close>; the weight has shape \<open>[out, in]\<close>.\<close>

record linear =
  in_features :: nat
  out_features :: nat
  fc_weight :: "nat \<Rightarrow> nat \<Rightarrow> real"
  fc_bias :: "nat \<Rightarrow> real"

definition linear_forward :: "linear \<Rightarrow> tensor2 \<Rightarrow> error + tensor2" where
  "linear_forward fc x =
     (if cols x \<noteq> in_features fc then Inl RuntimeError
      else Inr \<lparr>rows = rows x,
                cols = out_features fc,
                elem2 = (\<lambda>b oc. (\<Sum>k<in_features fc. elem2 x b k * fc_weight fc oc k)
                                   + fc_bias fc oc)\<rparr>)"

text \<open>\<open>F.relu\<close> on both kinds of tensor, and \<open>torch.tanh\<close>.\<close>

definition relu :: "tensor4 \<Rightarrow> tensor4" where
  "relu x = x\<lparr>elem := (\<lambda>b c i j. max 0 (elem x b c i j))\<rparr>"

definition relu2 :: "tensor2 \<Rightarrow> tensor2" where
  "relu2 x = x\<lparr>elem2 := (\<lambda>b k. max 0 (elem2 x b k))\<rparr>"

definition tanh2 :: "tensor2 \<Rightarrow> tensor2" where
  "tanh2 x = x\<lparr>elem2 := (\<lambda>b k. tanh (elem2 x b k))\<rparr>"

text \<open>
  \<open>out + identity\<close>. The two operands of the residual sum have the same shape whenever
  the block's layers accepted the input, so the sum is elementwise; operands of
  different shapes are reported as an error here.
\<close>

definition tensor_add :: "tensor4 \<Rightarrow> tensor4 \<Rightarrow> error + tensor4" where
  "tensor_add x y =
     (if dimB x = dimB y \<and> dimC x = dimC y \<and> dimH x = dimH y \<and> dimW x = dimW y
      then Inr (x\<lparr>elem := (\<lambda>b c i j. elem x b c i j + elem y b c i j)\<rparr>)
      else Inl RuntimeError)"

text \<open>
  \<open>x.view(x.size(0), -1)\<close>: the same elements in row-major order, as \<open>x.size(0)\<close> rows.
  The length of a row is inferred from the number of elements, which PyTorch refuses
  for an empty batch.
\<close>

definition view_flat :: "tensor4 \<Rightarrow> error + tensor2" where
  "view_flat x =
     (if dimB x = 0 then Inl RuntimeError
      else Inr \<lparr>rows = dimB x,
                cols = dimC x * dimH x * dimW x,
                elem2 = (\<lambda>b k. elem x b (k div (dimH x * dimW x))
                                         ((k mod (dimH x * dimW x)) div dimW x)
                                         (k mod dimW x))\<rparr>)"

subsection \<open>Constants of the module\<close>

definition DEFAULT_NUM_BLOCKS :: int where "DEFAULT_NUM_BLOCKS = 6"
definition DEFAULT_NUM_FILTERS :: nat where "DEFAULT_NUM_FILTERS = 128"
definition POLICY_OUTPUT_SIZE :: nat where "POLICY_OUTPUT_SIZE = 4096"
definition BOARD_SIZE :: nat where "BOARD_SIZE = 8"

subsection \<open>Constructors\<close>

text \<open>
  A layer's constructor fixes its shape and draws its initial weights at random; the
  values drawn are an argument here. A normalisation layer starts with weight 1, bias 0,
  running mean 0 and running variance 1.
\<close>

definition nn_Conv2d ::
  "nat \<Rightarrow> nat \<Rightarrow> nat \<Rightarrow> nat \<Rightarrow> (nat \<Rightarrow> nat \<Rightarrow> nat \<Rightarrow> nat \<Rightarrow> real) \<Rightarrow> conv2d" where
  "nn_Conv2d i oc k p w =
     \<lparr>in_channels = i, out_channels = oc, kernel_size = k, padding = p, conv_weight = w\<rparr>"

definition nn_BatchNorm2d :: "nat \<Rightarrow> batchnorm2d" where
  "nn_BatchNorm2d n =
     \<lparr>num_features = n, bn_weight = (\<lambda>_. 1), bn_bias = (\<lambda>_. 0),
      running_mean = (\<lambda>_. 0), running_var = (\<lambda>_. 1)\<rparr>"

definition nn_Linear :: "nat \<Rightarrow> nat \<Rightarrow> (nat \<Rightarrow> nat \<Rightarrow> real) \<Rightarrow> (nat \<Rightarrow> real) \<Rightarrow> linear" where
  "nn_Linear i oc w b = \<lparr>in_features = i, out_features = oc, fc_weight = w, fc_bias = b\<rparr>"

subsection \<open>ResidualBlock\<close>

record ResidualBlock =
  conv1 :: conv2d
  bn1 :: batchnorm2d
  conv2 :: conv2d
  bn2 :: batchnorm2d

definition ResidualBlock_init ::
  "nat \<Rightarrow> (nat \<Rightarrow> nat \<Rightarrow> nat \<Rightarrow> nat \<Rightarrow> real) \<Rightarrow> (nat \<Rightarrow> nat \<Rightarrow> nat \<Rightarrow> nat \<Rightarrow> real)
     \<Rightarrow> ResidualBlock" where
  "ResidualBlock_init num_filters w1 w2 =
     \<lparr>conv1 = nn_Conv2d num_filters num_filters 3 1 w1,
      bn1 = nn_BatchNorm2d num_filters,
      conv2 = nn_Conv2d num_filters num_filters 3 1 w2,
      bn2 = nn_BatchNorm2d num_filters\<rparr>"

text \<open>
  \<open>ResidualBlock.forward\<close>. The flag \<open>training\<close> is the module's mode
  (\<open>model.train()\<close> or \<open>model.eval()\<close>), which the normalisation layers read.
\<close>

definition ResidualBlock_forward :: "bool \<Rightarrow> ResidualBlock \<Rightarrow> tensor4 \<Rightarrow> error + tensor4" where
  "ResidualBlock_forward training blk x =
     (let identity = x in
      then_do (conv2d_forward (conv1 blk) x) (\<lambda>out.
      then_do (batchnorm2d_forward training (bn1 blk) out) (\<lambda>out.
      let out = relu out in
      then_do (conv2d_forward (conv2 blk) out) (\<lambda>out.
      then_do (batchnorm2d_forward training (bn2 blk) out) (\<lambda>out.
      then_do (tensor_add out identity) (\<lambda>out.
      Inr (relu out)))))))"

subsection \<open>ChessNet\<close>

record ChessNet =
  num_blocks :: int
  num_filters :: nat
  initial_conv :: conv2d
  initial_bn :: batchnorm2d
  residual_blocks :: "ResidualBlock list"
  policy_conv :: conv2d
  policy_bn :: batchnorm2d
  policy_fc :: linear
  value_conv :: conv2d
  value_bn :: batchnorm2d
  value_fc1 :: linear
  value_fc2 :: linear

text \<open>The values the constructors draw for the weights, one field per weight tensor.\<close>

record initial_values =
  init_initial_conv :: "nat \<Rightarrow> nat \<Rightarrow> nat \<Rightarrow> nat \<Rightarrow> real"
  init_block_conv1 :: "int \<Rightarrow> nat \<Rightarrow> nat \<Rightarrow> nat \<Rightarrow> nat \<Rightarrow> real"
  init_block_conv2 :: "int \<Rightarrow> nat \<Rightarrow> nat \<Rightarrow> nat \<Rightarrow> nat \<Rightarrow> real"
  init_policy_conv :: "nat \<Rightarrow> nat \<Rightarrow> nat \<Rightarrow> nat \<Rightarrow> real"
  init_policy_fc_weight :: "nat \<Rightarrow> nat \<Rightarrow> real"
  init_policy_fc_bias :: "nat \<Rightarrow> real"
  init_value_conv :: "nat \<Rightarrow> nat \<Rightarrow> nat \<Rightarrow> nat \<Rightarrow> real"
  init_value_fc1_weight :: "nat \<Rightarrow> nat \<Rightarrow> real"
  init_value_fc1_bias :: "nat \<Rightarrow> real"
  init_value_fc2_weight :: "nat \<Rightarrow> nat \<Rightarrow> real"
  init_value_fc2_bias :: "nat \<Rightarrow> real"

text \<open>Python's \<open>range(n)\<close> for an integer \<open>n\<close>: empty when \<open>n \<le> 0\<close>.\<close>

definition py_range :: "int \<Rightarrow> int list" where
  "py_range n = map int [0..<nat n]"

text \<open>
  \<open>ChessNet.__init__\<close>. The number of blocks is read by \<open>range(num_blocks)\<close> only and is
  not validated. The number of filters is a natural number here; the properties below
  are about \<open>num_filters \<ge> 1\<close>.
\<close>

definition ChessNet_init :: "int \<Rightarrow> nat \<Rightarrow> initial_values \<Rightarrow> ChessNet" where
  "ChessNet_init n_blocks n_filters iv =
     \<lparr>num_blocks = n_blocks,
      num_filters = n_filters,
      initial_conv = nn_Conv2d NUM_CHANNELS n_filters 3 1 (init_initial_conv iv),
      initial_bn = nn_BatchNorm2d n_filters,
      residual_blocks =
        map (\<lambda>k. ResidualBlock_init n_filters (init_block_conv1 iv k) (init_block_conv2 iv k))
          (py_range n_blocks),
      policy_conv = nn_Conv2d n_filters 2 1 0 (init_policy_conv iv),
      policy_bn = nn_BatchNorm2d 2,
      policy_fc = nn_Linear (2 * BOARD_SIZE * BOARD_SIZE) POLICY_OUTPUT_SIZE
                    (init_policy_fc_weight iv) (init_policy_fc_bias iv),
      value_conv = nn_Conv2d n_filters 1 1 0 (init_value_conv iv),
      value_bn = nn_BatchNorm2d 1,
      value_fc1 = nn_Linear (1 * BOARD_SIZE * BOARD_SIZE) 256
                    (init_value_fc1_weight iv) (init_value_fc1_bias iv),
      value_fc2 = nn_Linear 256 1 (init_value_fc2_weight iv) (init_value_fc2_bias iv)\<rparr>"

text \<open>\<open>for block in self.residual_blocks: x = block(x)\<close>\<close>

fun run_blocks :: "bool \<Rightarrow> ResidualBlock list \<Rightarrow> tensor4 \<Rightarrow> error + tensor4" where
  "run_blocks training [] x = Inr x"
| "run_blocks training (block # blocks) x =
     then_do (ResidualBlock_forward training block x) (run_blocks training blocks)"

text \<open>
  \<open>ChessNet.forward\<close>, statement by statement. The policy head is computed to its end
  before the value head is entered.
\<close>

definition ChessNet_forward :: "bool \<Rightarrow> ChessNet \<Rightarrow> tensor4 \<Rightarrow> error + (tensor2 \<times> tensor2)" where
  "ChessNet_forward training m x =
     then_do (conv2d_forward (initial_conv m) x) (\<lambda>x.
     then_do (batchnorm2d_forward training (initial_bn m) x) (\<lambda>x.
     let x = relu x in
     then_do (run_blocks training (residual_blocks m) x) (\<lambda>x.
     then_do (conv2d_forward (policy_conv m) x) (\<lambda>policy.
     then_do (batchnorm2d_forward training (policy_bn m) policy) (\<lambda>policy.
     let policy = relu policy in
     then_do (view_flat policy) (\<lambda>policy.
     then_do (linear_forward (policy_fc m) policy) (\<lambda>policy_logits.
     then_do (conv2d_forward (value_conv m) x) (\<lambda>v.
     then_do (batchnorm2d_forward training (value_bn m) v) (\<lambda>v.
     let v = relu v in
     then_do (view_flat v) (\<lambda>v.
     then_do (linear_forward (value_fc1 m) v) (\<lambda>v.
     let v = relu2 v in
     then_do (linear_forward (value_fc2 m) v) (\<lambda>v.
     let v = tanh2 v in
     Inr (policy_logits, v)))))))))))))"

subsection \<open>Counting parameters\<close>

text \<open>
  The number of elements of each parameter tensor of a layer, in the order
  \<open>parameters()\<close> yields them. Every parameter has \<open>requires_grad\<close> set, so
  \<open>count_parameters\<close> sums them all.
\<close>

definition conv2d_parameters :: "conv2d \<Rightarrow> nat list" where
  "conv2d_parameters cv =
     [out_channels cv * in_channels cv * kernel_size cv * kernel_size cv]"

definition batchnorm2d_parameters :: "batchnorm2d \<Rightarrow> nat list" where
  "batchnorm2d_parameters bn = [num_features bn, num_features bn]"

definition linear_parameters :: "linear \<Rightarrow> nat list" where
  "linear_parameters fc = [out_features fc * in_features fc, out_features fc]"

definition ResidualBlock_parameters :: "ResidualBlock \<Rightarrow> nat list" where
  "ResidualBlock_parameters blk =
     conv2d_parameters (conv1 blk) @ batchnorm2d_parameters (bn1 blk)
       @ conv2d_parameters (conv2 blk) @ batchnorm2d_parameters (bn2 blk)"

definition ChessNet_parameters :: "ChessNet \<Rightarrow> nat list" where
  "ChessNet_parameters m =
     conv2d_parameters (initial_conv m) @ batchnorm2d_parameters (initial_bn m)
       @ concat (map ResidualBlock_parameters (residual_blocks m))
       @ conv2d_parameters (policy_conv m) @ batchnorm2d_parameters (policy_bn m)
       @ linear_parameters (policy_fc m)
       @ conv2d_parameters (value_conv m) @ batchnorm2d_parameters (value_bn m)
       @ linear_parameters (value_fc1 m) @ linear_parameters (value_fc2 m)"

definition count_parameters :: "ChessNet \<Rightarrow> nat" where
  "count_parameters m = sum_list (ChessNet_parameters m)"

subsection \<open>Notions used to state the network's properties\<close>

text \<open>
  The architecture that the constructors fix: the shape attributes of every layer.
  Training, loading or zeroing parameters changes weight values only, so every model
  obtained from \<open>ChessNet_init n f\<close> satisfies \<open>ChessNet_arch n f\<close>.
\<close>

definition conv_shape :: "conv2d \<Rightarrow> nat \<Rightarrow> nat \<Rightarrow> nat \<Rightarrow> nat \<Rightarrow> bool" where
  "conv_shape cv i oc k p =
     (in_channels cv = i \<and> out_channels cv = oc \<and> kernel_size cv = k \<and> padding cv = p)"

definition linear_shape :: "linear \<Rightarrow> nat \<Rightarrow> nat \<Rightarrow> bool" where
  "linear_shape fc i oc = (in_features fc = i \<and> out_features fc = oc)"

definition ResidualBlock_arch :: "nat \<Rightarrow> ResidualBlock \<Rightarrow> bool" where
  "ResidualBlock_arch f blk =
     (conv_shape (conv1 blk) f f 3 1 \<and> num_features (bn1 blk) = f \<and>
      conv_shape (conv2 blk) f f 3 1 \<and> num_features (bn2 blk) = f)"

definition ChessNet_arch :: "int \<Rightarrow> nat \<Rightarrow> ChessNet \<Rightarrow> bool" where
  "ChessNet_arch n f m =
     (num_blocks m = n \<and> num_filters m = f \<and>
      conv_shape (initial_conv m) 18 f 3 1 \<and> num_features (initial_bn m) = f \<and>
      length (residual_blocks m) = nat n \<and>
      list_all (ResidualBlock_arch f) (residual_blocks m) \<and>
      conv_shape (policy_conv m) f 2 1 0 \<and> num_features (policy_bn m) = 2 \<and>
      linear_shape (policy_fc m) 128 4096 \<and>
      conv_shape (value_conv m) f 1 1 0 \<and> num_features (value_bn m) = 1 \<and>
      linear_shape (value_fc1 m) 64 256 \<and> linear_shape (value_fc2 m) 256 1)"

text \<open>The three parts of \<open>ChessNet.forward\<close>: trunk, policy head and value head.\<close>

definition trunk_forward :: "bool \<Rightarrow> ChessNet \<Rightarrow> tensor4 \<Rightarrow> error + tensor4" where
  "trunk_forward training m x =
     then_do (conv2d_forward (initial_conv m) x) (\<lambda>x.
     then_do (batchnorm2d_forward training (initial_bn m) x) (\<lambda>x.
     let x = relu x in
     run_blocks training (residual_blocks m) x))"

definition policy_head :: "bool \<Rightarrow> ChessNet \<Rightarrow> tensor4 \<Rightarrow> error + tensor2" where
  "policy_head training m x =
     then_do (conv2d_forward (policy_conv m) x) (\<lambda>policy.
     then_do (batchnorm2d_forward training (policy_bn m) policy) (\<lambda>policy.
     let policy = relu policy in
     then_do (view_flat policy) (\<lambda>policy.
     linear_forward (policy_fc m) policy)))"

definition value_head :: "bool \<Rightarrow> ChessNet \<Rightarrow> tensor4 \<Rightarrow> error + tensor2" where
  "value_head training m x =
     then_do (conv2d_forward (value_conv m) x) (\<lambda>v.
     then_do (batchnorm2d_forward training (value_bn m) v) (\<lambda>v.
     let v = relu v in
     then_do (view_flat v) (\<lambda>v.
     then_do (linear_forward (value_fc1 m) v) (\<lambda>v.
     let v = relu2 v in
     then_do (linear_forward (value_fc2 m) v) (\<lambda>v.
     Inr (tanh2 v))))))"




text \<open>\<open>x[b].unsqueeze(0)\<close>: sample \<open>b\<close> of a batch, as a batch of one.\<close>

definition single_sample :: "tensor4 \<Rightarrow> nat \<Rightarrow> tensor4" where
  "single_sample x b = x\<lparr>dimB := 1, elem := (\<lambda>_. elem x b)\<rparr>"




text \<open>Concrete objects: all-zero initial values, and \<open>torch.zeros(b, c, h, w)\<close>.\<close>

definition zero_values :: initial_values where
  "zero_values =
     \<lparr>init_initial_conv = (\<lambda>_ _ _ _. 0),
      init_block_conv1 = (\<lambda>_ _ _ _ _. 0),
      init_block_conv2 = (\<lambda>_ _ _ _ _. 0),
      init_policy_conv = (\<lambda>_ _ _ _. 0),
      init_policy_fc_weight = (\<lambda>_ _. 0),
      init_policy_fc_bias = (\<lambda>_. 0),
      init_value_conv = (\<lambda>_ _ _ _. 0),
      init_value_fc1_weight = (\<lambda>_ _. 0),
      init_value_fc1_bias = (\<lambda>_. 0),
      init_value_fc2_weight = (\<lambda>_ _. 0),
      init_value_fc2_bias = (\<lambda>_. 0)\<rparr>"

definition torch_zeros :: "nat \<Rightarrow> nat \<Rightarrow> nat \<Rightarrow> nat \<Rightarrow> tensor4" where
  "torch_zeros b c h w = \<lparr>dimB = b, dimC = c, dimH = h, dimW = w, elem = (\<lambda>_ _ _ _. 0)\<rparr>"




text \<open>A batch of two samples of shape \<open>[1, 1, 2]\<close>: all 0 and all 2.\<close>

definition two_samples :: tensor4 where
  "two_samples =
     \<lparr>dimB = 2, dimC = 1, dimH = 1, dimW = 2, elem = (\<lambda>b c i j. if b = 0 then 0 else 2)\<rparr>"

text \<open>The shape of a four-dimensional tensor.\<close>

definition dims4 :: "tensor4 \<Rightarrow> nat \<times> nat \<times> nat \<times> nat" where
  "dims4 x = (dimB x, dimC x, dimH x, dimW x)"

section \<open>Properties of the board encoder\<close>

lemma has_shape_np_zeros: "has_shape (np_zeros c h w) c h w"
  by (simp add: has_shape_def np_zeros_def)

lemma nth_update_read:
  "j < length xs \<Longrightarrow> xs[i := x] ! j = (if i = j then x else xs ! j)"
  by (cases "i = j") simp_all

lemma has_shape_set_cell:
  "has_shape enc c h w \<Longrightarrow> has_shape (set_cell enc ch r f v) c h w"
  by (auto simp: has_shape_def set_cell_def nth_update_read)

lemma has_shape_fill_plane:
  "has_shape enc c h w \<Longrightarrow> has_shape (fill_plane enc ch v) c h w"
  by (auto simp: has_shape_def fill_plane_def nth_update_read)

lemma has_shape_fill_column:
  "has_shape enc c h w \<Longrightarrow> has_shape (fill_column enc ch f v) c h w"
  by (auto simp: has_shape_def fill_column_def nth_update_read)

lemma cell_set_cell:
  assumes "has_shape enc c h w" "ch < c" "r < h" "f < w" "c' < c" "r' < h" "f' < w"
  shows "set_cell enc ch r f v ! c' ! r' ! f' =
           (if c' = ch \<and> r' = r \<and> f' = f then v else enc ! c' ! r' ! f')"
  using assms by (auto simp: has_shape_def set_cell_def nth_update_read)

lemma cell_fill_plane:
  assumes "has_shape enc c h w" "ch < c" "c' < c" "r' < h" "f' < w"
  shows "fill_plane enc ch v ! c' ! r' ! f' = (if c' = ch then v else enc ! c' ! r' ! f')"
  using assms by (auto simp: has_shape_def fill_plane_def nth_update_read)

lemma cell_fill_column:
  assumes "has_shape enc c h w" "ch < c" "c' < c" "r' < h" "f' < w"
  shows "fill_column enc ch f v ! c' ! r' ! f' =
           (if c' = ch \<and> f' = f then v else enc ! c' ! r' ! f')"
  using assms by (auto simp: has_shape_def fill_column_def nth_update_read)

lemma piece_channel_less: "piece_channel p < 12"
  by (cases "piece_type p"; cases "color p")
     (simp_all add: piece_channel_def WHITE_PIECE_OFFSET_def BLACK_PIECE_OFFSET_def)

lemma encode_square_channel:
  "encode_square b enc sq =
     (case piece_at b sq of
        None \<Rightarrow> enc
      | Some p \<Rightarrow> set_cell enc (piece_channel p) (square_rank sq) (square_file sq) 1)"
  by (simp add: encode_square_def piece_channel_def Let_def split: option.splits)

text \<open>
  Every index the loop body writes at is inside the array, so the \<open>IndexError\<close> of an
  out-of-range assignment cannot occur.
\<close>

lemma encode_square_in_range:
  "sq < 64 \<Longrightarrow> piece_channel p < NUM_CHANNELS \<and> square_rank sq < 8 \<and> square_file sq < 8"
  using piece_channel_less [of p]
  by (simp add: NUM_CHANNELS_def square_rank_def square_file_def)

lemma has_shape_encode_square:
  "has_shape enc c h w \<Longrightarrow> has_shape (encode_square b enc sq) c h w"
  by (simp add: encode_square_channel has_shape_set_cell split: option.splits)

lemma has_shape_foldl_encode_square:
  "has_shape enc c h w \<Longrightarrow> has_shape (foldl (encode_square b) enc sqs) c h w"
  by (induction sqs arbitrary: enc) (simp_all add: has_shape_encode_square)

lemma cell_encode_square:
  assumes "has_shape enc 18 8 8" "sq < 64" "c < 18" "r < 8" "f < 8"
  shows "encode_square b enc sq ! c ! r ! f = (if occupies b sq c r f then 1 else enc ! c ! r ! f)"
proof (cases "piece_at b sq")
  case None
  then show ?thesis by (simp add: encode_square_channel occupies_def)
next
  case (Some p)
  have "piece_channel p < 18" using piece_channel_less [of p] by simp
  moreover have "square_rank sq < 8" "square_file sq < 8"
    using assms(2) by (simp_all add: square_rank_def square_file_def)
  ultimately show ?thesis
    using Some assms by (auto simp: encode_square_channel occupies_def cell_set_cell)
qed

lemma cell_foldl_encode_square:
  assumes "has_shape enc 18 8 8" "\<forall>sq\<in>set sqs. sq < 64" "c < 18" "r < 8" "f < 8"
  shows "foldl (encode_square b) enc sqs ! c ! r ! f =
           (if \<exists>sq\<in>set sqs. occupies b sq c r f then 1 else enc ! c ! r ! f)"
  using assms
proof (induction sqs arbitrary: enc)
  case Nil
  then show ?case by simp
next
  case (Cons sq sqs)
  have sh: "has_shape (encode_square b enc sq) 18 8 8"
    using Cons.prems(1) by (rule has_shape_encode_square)
  have "foldl (encode_square b) (encode_square b enc sq) sqs ! c ! r ! f =
          (if \<exists>s\<in>set sqs. occupies b s c r f then 1 else encode_square b enc sq ! c ! r ! f)"
    using Cons.IH [OF sh] Cons.prems by simp
  moreover have "encode_square b enc sq ! c ! r ! f =
          (if occupies b sq c r f then 1 else enc ! c ! r ! f)"
    using Cons.prems by (simp add: cell_encode_square)
  ultimately show ?case by auto
qed

lemma cell_cond_fill_plane:
  assumes "has_shape enc 18 8 8" "ch < 18" "c < 18" "r < 8" "f < 8"
  shows "(if cond then fill_plane enc ch 1 else enc) ! c ! r ! f =
           (if c = ch \<and> cond then 1 else enc ! c ! r ! f)"
  using assms by (simp add: cell_fill_plane)

lemma has_shape_cond_fill_plane:
  "has_shape enc c h w \<Longrightarrow> has_shape (if cond then fill_plane enc ch v else enc) c h w"
  by (simp add: has_shape_fill_plane)

lemma encode_board_stages:
  "encode_board b =
     (case ep_square b of
        None \<Rightarrow> stage_castling b
      | Some sq \<Rightarrow> fill_column (stage_castling b) EN_PASSANT_CHANNEL (square_file sq) 1)"
  by (simp only: encode_board_def stage_castling_def stage_turn_def stage_pieces_def Let_def)

lemma has_shape_stage_pieces: "has_shape (stage_pieces b) 18 8 8"
  by (simp add: stage_pieces_def NUM_CHANNELS_def has_shape_foldl_encode_square
      has_shape_np_zeros)

lemma cell_stage_pieces:
  assumes "c < 18" "r < 8" "f < 8"
  shows "stage_pieces b ! c ! r ! f = (if \<exists>sq<64. occupies b sq c r f then 1 else 0)"
proof -
  have z: "has_shape (np_zeros 18 8 8) 18 8 8" by (rule has_shape_np_zeros)
  have "foldl (encode_square b) (np_zeros 18 8 8) [0..<64] ! c ! r ! f =
          (if \<exists>sq\<in>set [0..<64]. occupies b sq c r f then 1 else np_zeros 18 8 8 ! c ! r ! f)"
    using assms by (intro cell_foldl_encode_square [OF z]) simp_all
  moreover have "np_zeros 18 8 8 ! c ! r ! f = 0"
    using assms by (simp add: np_zeros_def)
  ultimately show ?thesis
    by (simp add: stage_pieces_def NUM_CHANNELS_def SQUARES_def Bex_def)
qed

lemma has_shape_stage_turn: "has_shape (stage_turn b) 18 8 8"
  by (simp add: stage_turn_def has_shape_stage_pieces has_shape_fill_plane)

lemma cell_stage_turn:
  assumes "c < 18" "r < 8" "f < 8"
  shows "stage_turn b ! c ! r ! f =
           (if c = 12 \<and> turn b = WHITE then 1 else stage_pieces b ! c ! r ! f)"
  unfolding stage_turn_def SIDE_TO_MOVE_CHANNEL_def
  using assms by (intro cell_cond_fill_plane has_shape_stage_pieces) simp_all

lemma has_shape_stage_castling: "has_shape (stage_castling b) 18 8 8"
  by (simp add: stage_castling_def Let_def has_shape_stage_turn has_shape_fill_plane)

lemma cell_stage_castling:
  assumes "c < 18" "r < 8" "f < 8"
  shows "stage_castling b ! c ! r ! f =
           (if c = 13 \<and> has_kingside_castling_rights b WHITE
               \<or> c = 14 \<and> has_queenside_castling_rights b WHITE
               \<or> c = 15 \<and> has_kingside_castling_rights b BLACK
               \<or> c = 16 \<and> has_queenside_castling_rights b BLACK
            then 1 else stage_turn b ! c ! r ! f)"
proof -
  define e1 where "e1 = (if has_kingside_castling_rights b WHITE
                      then fill_plane (stage_turn b) CASTLING_WK_CHANNEL 1 else stage_turn b)"
  define e2 where "e2 = (if has_queenside_castling_rights b WHITE
                      then fill_plane e1 CASTLING_WQ_CHANNEL 1 else e1)"
  define e3 where "e3 = (if has_kingside_castling_rights b BLACK
                      then fill_plane e2 CASTLING_BK_CHANNEL 1 else e2)"
  define e4 where "e4 = (if has_queenside_castling_rights b BLACK
                      then fill_plane e3 CASTLING_BQ_CHANNEL 1 else e3)"
  have s1: "has_shape e1 18 8 8"
    unfolding e1_def by (rule has_shape_cond_fill_plane [OF has_shape_stage_turn])
  have s2: "has_shape e2 18 8 8"
    unfolding e2_def by (rule has_shape_cond_fill_plane [OF s1])
  have s3: "has_shape e3 18 8 8"
    unfolding e3_def by (rule has_shape_cond_fill_plane [OF s2])
  have c1: "e1 ! c ! r ! f = (if c = 13 \<and> has_kingside_castling_rights b WHITE then 1
                              else stage_turn b ! c ! r ! f)"
    unfolding e1_def CASTLING_WK_CHANNEL_def
    using assms by (intro cell_cond_fill_plane has_shape_stage_turn) simp_all
  have c2: "e2 ! c ! r ! f = (if c = 14 \<and> has_queenside_castling_rights b WHITE then 1
                              else e1 ! c ! r ! f)"
    unfolding e2_def CASTLING_WQ_CHANNEL_def
    using assms by (intro cell_cond_fill_plane s1) simp_all
  have c3: "e3 ! c ! r ! f = (if c = 15 \<and> has_kingside_castling_rights b BLACK then 1
                              else e2 ! c ! r ! f)"
    unfolding e3_def CASTLING_BK_CHANNEL_def
    using assms by (intro cell_cond_fill_plane s2) simp_all
  have c4: "e4 ! c ! r ! f = (if c = 16 \<and> has_queenside_castling_rights b BLACK then 1
                              else e3 ! c ! r ! f)"
    unfolding e4_def CASTLING_BQ_CHANNEL_def
    using assms by (intro cell_cond_fill_plane s3) simp_all
  have "stage_castling b = e4"
    by (simp only: stage_castling_def Let_def e1_def e2_def e3_def e4_def)
  then have "stage_castling b ! c ! r ! f = e4 ! c ! r ! f" by simp
  also have "\<dots> = (if c = 13 \<and> has_kingside_castling_rights b WHITE
               \<or> c = 14 \<and> has_queenside_castling_rights b WHITE
               \<or> c = 15 \<and> has_kingside_castling_rights b BLACK
               \<or> c = 16 \<and> has_queenside_castling_rights b BLACK
            then 1 else stage_turn b ! c ! r ! f)"
    unfolding c4 c3 c2 c1 by auto
  finally show ?thesis .
qed

lemma has_shape_encode_board: "has_shape (encode_board b) 18 8 8"
  by (simp add: encode_board_stages has_shape_stage_castling has_shape_fill_column
      split: option.splits)

lemma cell_encode_board_ep:
  assumes "c < 18" "r < 8" "f < 8"
  shows "encode_board b ! c ! r ! f =
           (if c = 17 \<and> (\<exists>sq. ep_square b = Some sq \<and> f = square_file sq) then 1
            else stage_castling b ! c ! r ! f)"
  using assms
  by (auto simp: encode_board_stages EN_PASSANT_CHANNEL_def
      cell_fill_column [OF has_shape_stage_castling] split: option.splits)

lemma piece_channel_ordinal:
  "piece_channel p = (if color p = WHITE then 0 else 6) + kind_ordinal (piece_type p)"
  by (cases "piece_type p")
     (simp_all add: piece_channel_def WHITE_PIECE_OFFSET_def BLACK_PIECE_OFFSET_def)

lemma square_of_rank_file:
  "square_rank s = square_rank t \<Longrightarrow> square_file s = square_file t \<Longrightarrow> s = t"
  unfolding square_rank_def square_file_def
  by (metis div_mult_mod_eq)

lemma occupies_cell_iff:
  assumes "sq < 64"
  shows "(\<exists>s<64. occupies b s c (square_rank sq) (square_file sq)) \<longleftrightarrow>
         (\<exists>p. piece_at b sq = Some p \<and> piece_channel p = c)"
proof
  assume "\<exists>s<64. occupies b s c (square_rank sq) (square_file sq)"
  then obtain s where s: "occupies b s c (square_rank sq) (square_file sq)" by blast
  then have "square_rank s = square_rank sq" "square_file s = square_file sq"
    by (auto simp: occupies_def split: option.splits)
  then have "s = sq" by (rule square_of_rank_file)
  with s show "\<exists>p. piece_at b sq = Some p \<and> piece_channel p = c"
    by (auto simp: occupies_def split: option.splits)
next
  assume "\<exists>p. piece_at b sq = Some p \<and> piece_channel p = c"
  then have "occupies b sq c (square_rank sq) (square_file sq)"
    by (auto simp: occupies_def)
  with assms show "\<exists>s<64. occupies b s c (square_rank sq) (square_file sq)" by blast
qed

lemma cell_encode_board_low:
  assumes "c < 12" "r < 8" "f < 8"
  shows "encode_board b ! c ! r ! f = (if \<exists>sq<64. occupies b sq c r f then 1 else 0)"
  using assms
  by (simp add: cell_encode_board_ep cell_stage_castling cell_stage_turn cell_stage_pieces)

text \<open>
  C6: the loop runs over \<open>SQUARES\<close>, which lists each of the 64 squares exactly once. In
  the result, for every square and every plane 0 to 11, the cell at the square's
  (rank, file) is 1.0 exactly when the square is occupied and the plane is the owner's
  band offset (0 for White, 6 for Black) plus the ordinal of the piece kind; it is 0.0
  in the other eleven planes, and in all twelve when the square is empty.
\<close>

theorem encode_board_piece_planes:
  "distinct SQUARES \<and> set SQUARES = {0..<64} \<and>
   (\<forall>sq<64. \<forall>c<12.
      encode_board P ! c ! square_rank sq ! square_file sq =
        (case piece_at P sq of
           None \<Rightarrow> 0
         | Some p \<Rightarrow>
             if c = (if color p = WHITE then 0 else 6) + kind_ordinal (piece_type p)
             then 1 else 0))"
proof (intro conjI allI impI)
  show "distinct SQUARES" by (simp add: SQUARES_def)
  show "set SQUARES = {0..<64}" by (simp add: SQUARES_def)
next
  fix sq c :: nat
  assume sq: "sq < 64" and c: "c < 12"
  have rf: "square_rank sq < 8" "square_file sq < 8"
    using sq by (simp_all add: square_rank_def square_file_def)
  have "encode_board P ! c ! square_rank sq ! square_file sq =
          (if \<exists>p. piece_at P sq = Some p \<and> piece_channel p = c then 1 else 0)"
    using cell_encode_board_low [OF c rf] occupies_cell_iff [OF sq] by simp
  then show "encode_board P ! c ! square_rank sq ! square_file sq =
        (case piece_at P sq of
           None \<Rightarrow> 0
         | Some p \<Rightarrow>
             if c = (if color p = WHITE then 0 else 6) + kind_ordinal (piece_type p)
             then 1 else 0)"
    by (auto simp: piece_channel_ordinal split: option.splits)
qed

theorem encode_board_piece_planes_witness:
  "encode_board example_board ! 0 ! square_rank 28 ! square_file 28 = 1 \<and>
   encode_board example_board ! 5 ! square_rank 28 ! square_file 28 = 0 \<and>
   encode_board example_board ! 11 ! square_rank 60 ! square_file 60 = 1 \<and>
   encode_board example_board ! 3 ! square_rank 12 ! square_file 12 = 0"
  using encode_board_piece_planes [of example_board]
  by (simp add: example_board_def)

text \<open>
  C9: for every position the result has shape (18, 8, 8), and every element is exactly
  0.0 or exactly 1.0. The elements are those of an array created with
  \<open>dtype=np.float32\<close>; both values are written as real numbers here.
\<close>

theorem encode_board_shape_values:
  "length (encode_board P) = 18 \<and>
   (\<forall>c<18. length (encode_board P ! c) = 8 \<and>
      (\<forall>r<8. length (encode_board P ! c ! r) = 8 \<and>
         (\<forall>f<8. encode_board P ! c ! r ! f = 0 \<or> encode_board P ! c ! r ! f = 1)))"
proof -
  have sh: "has_shape (encode_board P) 18 8 8" by (rule has_shape_encode_board)
  have "encode_board P ! c ! r ! f = 0 \<or> encode_board P ! c ! r ! f = 1"
    if "c < 18" "r < 8" "f < 8" for c r f
    using that
    by (simp add: cell_encode_board_ep cell_stage_castling cell_stage_turn cell_stage_pieces)
  with sh show ?thesis by (simp add: has_shape_def)
qed

theorem encode_board_shape_values_witness:
  "length (encode_board example_board) = 18 \<and>
   length (encode_board example_board ! 17) = 8 \<and>
   length (encode_board example_board ! 17 ! 2) = 8 \<and>
   (encode_board example_board ! 17 ! 2 ! 4 = 0 \<or> encode_board example_board ! 17 ! 2 ! 4 = 1)"
  using encode_board_shape_values [of example_board] by simp

lemma plane_eqI:
  assumes "has_shape A 18 8 8" "has_shape B 18 8 8" "c < 18"
    and "\<And>r f. r < 8 \<Longrightarrow> f < 8 \<Longrightarrow> A ! c ! r ! f = B ! c ! r ! f"
  shows "A ! c = B ! c"
proof (rule nth_equalityI)
  show "length (A ! c) = length (B ! c)" using assms(1-3) by (simp add: has_shape_def)
next
  fix r assume "r < length (A ! c)"
  then have r: "r < 8" using assms(1,3) by (simp add: has_shape_def)
  show "A ! c ! r = B ! c ! r"
  proof (rule nth_equalityI)
    show "length (A ! c ! r) = length (B ! c ! r)"
      using assms(1-3) r by (simp add: has_shape_def)
  next
    fix f assume "f < length (A ! c ! r)"
    then have "f < 8" using assms(1,3) r by (simp add: has_shape_def)
    then show "A ! c ! r ! f = B ! c ! r ! f" using r by (rule assms(4) [rotated])
  qed
qed

lemma const_plane_eqI:
  assumes "has_shape A 18 8 8" "c < 18"
    and "\<And>r f. r < 8 \<Longrightarrow> f < 8 \<Longrightarrow> A ! c ! r ! f = g f"
  shows "A ! c = replicate 8 (map g [0..<8])"
proof (rule nth_equalityI)
  show "length (A ! c) = length (replicate 8 (map g [0..<8]))"
    using assms(1,2) by (simp add: has_shape_def)
next
  fix r assume "r < length (A ! c)"
  then have r: "r < 8" using assms(1,2) by (simp add: has_shape_def)
  have "A ! c ! r = map g [0..<8]"
  proof (rule nth_equalityI)
    show "length (A ! c ! r) = length (map g [0..<8])"
      using assms(1,2) r by (simp add: has_shape_def)
  next
    fix f assume "f < length (A ! c ! r)"
    then have f: "f < 8" using assms(1,2) r by (simp add: has_shape_def)
    then show "A ! c ! r ! f = map g [0..<8] ! f" using assms(3) [OF r f] by simp
  qed
  then show "A ! c ! r = replicate 8 (map g [0..<8]) ! r" using r by simp
qed

lemma not_occupies_high: "12 \<le> c \<Longrightarrow> \<not> occupies b sq c r f"
proof (cases "piece_at b sq")
  case None
  then show ?thesis by (simp add: occupies_def)
next
  case (Some p)
  assume "12 \<le> c"
  then have "piece_channel p \<noteq> c" using piece_channel_less [of p] by simp
  then show ?thesis using Some by (simp add: occupies_def)
qed

lemma cell_stage_pieces_high:
  assumes "12 \<le> c" "c < 18" "r < 8" "f < 8"
  shows "stage_pieces b ! c ! r ! f = 0"
  using assms by (simp add: cell_stage_pieces not_occupies_high)

lemma cell_encode_board_17:
  assumes "r < 8" "f < 8"
  shows "encode_board b ! 17 ! r ! f =
           (case ep_square b of None \<Rightarrow> 0
            | Some sq \<Rightarrow> if f = square_file sq then 1 else 0)"
  using assms
  by (simp add: cell_encode_board_ep cell_stage_castling cell_stage_turn cell_stage_pieces_high
      split: option.splits)

text \<open>
  C3: plane 17 is a function of the en-passant square alone. With a target square, every
  row of the plane is 1.0 in the column of the square's file and 0.0 elsewhere; with
  none, the plane is all zero. No legality query is involved.
\<close>

theorem encode_board_en_passant_plane:
  "encode_board P ! 17 =
     (case ep_square P of
        None \<Rightarrow> replicate 8 (replicate 8 0)
      | Some sq \<Rightarrow> replicate 8 (map (\<lambda>file. if file = square_file sq then 1 else 0) [0..<8]))"
proof (cases "ep_square P")
  case None
  have "encode_board P ! 17 = replicate 8 (map (\<lambda>_. 0) [0..<8])"
    using None
    by (intro const_plane_eqI has_shape_encode_board)
       (simp_all add: cell_encode_board_17)
  then show ?thesis using None by (simp add: map_replicate_const)
next
  case (Some sq)
  have "encode_board P ! 17 =
          replicate 8 (map (\<lambda>file. if file = square_file sq then 1 else 0) [0..<8])"
    using Some
    by (intro const_plane_eqI has_shape_encode_board)
       (simp_all add: cell_encode_board_17)
  then show ?thesis using Some by simp
qed

lemma cell_encode_board:
  assumes "c < 18" "r < 8" "f < 8"
  shows "encode_board b ! c ! r ! f =
    (if c = 17 then (case ep_square b of None \<Rightarrow> 0
                     | Some sq \<Rightarrow> if f = square_file sq then 1 else 0)
     else if c = 16 then (if has_castling_right b BQ then 1 else 0)
     else if c = 15 then (if has_castling_right b BK then 1 else 0)
     else if c = 14 then (if has_castling_right b WQ then 1 else 0)
     else if c = 13 then (if has_castling_right b WK then 1 else 0)
     else if c = 12 then (if turn b = WHITE then 1 else 0)
     else (if \<exists>sq<64. occupies b sq c r f then 1 else 0))"
proof (cases "c < 12")
  case True
  then show ?thesis using assms by (simp add: cell_encode_board_low)
next
  case False
  then have "12 \<le> c" by simp
  then show ?thesis
    using assms
    by (simp add: cell_encode_board_ep cell_stage_castling cell_stage_turn
        cell_stage_pieces_high split: option.splits)
qed

lemma occupies_cong: "piece_at b' = piece_at b \<Longrightarrow> occupies b' sq c r f = occupies b sq c r f"
  by (simp add: occupies_def)

lemma castling_channel_range: "12 < castling_channel k \<and> castling_channel k < 17"
  by (cases k)
     (simp_all add: CASTLING_WK_CHANNEL_def CASTLING_WQ_CHANNEL_def CASTLING_BK_CHANNEL_def
        CASTLING_BQ_CHANNEL_def)

lemma cell_castling_channel:
  assumes "r < 8" "f < 8"
  shows "encode_board b ! castling_channel k ! r ! f = (if has_castling_right b k then 1 else 0)"
  using assms
  by (cases k)
     (simp_all add: cell_encode_board CASTLING_WK_CHANNEL_def CASTLING_WQ_CHANNEL_def
        CASTLING_BK_CHANNEL_def CASTLING_BQ_CHANNEL_def)

lemma castling_channel_inj: "castling_channel k' = castling_channel k \<Longrightarrow> k' = k"
  by (cases k; cases k')
     (simp_all add: CASTLING_WK_CHANNEL_def CASTLING_WQ_CHANNEL_def CASTLING_BK_CHANNEL_def
        CASTLING_BQ_CHANNEL_def)

text \<open>
  C7: let two positions agree on pieces, side to move and en-passant square, and on
  every castling permission but one, which the first holds and the second lacks. Then
  the plane of that permission is all 1.0 for the first and all 0.0 for the second,
  and each of the other seventeen planes is the same in both encodings.
\<close>

theorem encode_board_castling_frame:
  assumes same: "piece_at P' = piece_at P" "turn P' = turn P" "ep_square P' = ep_square P"
    and held: "has_castling_right P k"
    and lost: "\<not> has_castling_right P' k"
    and others: "\<forall>k'. k' \<noteq> k \<longrightarrow> has_castling_right P' k' = has_castling_right P k'"
  shows "encode_board P ! castling_channel k = replicate 8 (replicate 8 1) \<and>
         encode_board P' ! castling_channel k = replicate 8 (replicate 8 0) \<and>
         (\<forall>c<18. c \<noteq> castling_channel k \<longrightarrow> encode_board P' ! c = encode_board P ! c)"
proof (intro conjI allI impI)
  have ch: "castling_channel k < 18" using castling_channel_range [of k] by simp
  have "encode_board P ! castling_channel k = replicate 8 (map (\<lambda>_. 1) [0..<8])"
    using held by (intro const_plane_eqI has_shape_encode_board ch) (simp add: cell_castling_channel)
  then show "encode_board P ! castling_channel k = replicate 8 (replicate 8 1)"
    by (simp add: map_replicate_const)
  have "encode_board P' ! castling_channel k = replicate 8 (map (\<lambda>_. 0) [0..<8])"
    using lost by (intro const_plane_eqI has_shape_encode_board ch) (simp add: cell_castling_channel)
  then show "encode_board P' ! castling_channel k = replicate 8 (replicate 8 0)"
    by (simp add: map_replicate_const)
next
  fix c :: nat
  assume c: "c < 18" and ne: "c \<noteq> castling_channel k"
  have rights: "has_castling_right P' k' = has_castling_right P k'"
    if "castling_channel k' = c" for k'
    using that ne others by auto
  show "encode_board P' ! c = encode_board P ! c"
  proof (rule plane_eqI [OF has_shape_encode_board has_shape_encode_board c])
    fix r f :: nat
    assume "r < 8" "f < 8"
    then show "encode_board P' ! c ! r ! f = encode_board P ! c ! r ! f"
      using c same rights [of WK] rights [of WQ] rights [of BK] rights [of BQ]
      by (simp add: cell_encode_board occupies_cong [OF same(1)]
          CASTLING_WK_CHANNEL_def CASTLING_WQ_CHANNEL_def CASTLING_BK_CHANNEL_def
          CASTLING_BQ_CHANNEL_def)
  qed
qed

theorem encode_board_castling_frame_witness:
  "encode_board example_board ! 13 = replicate 8 (replicate 8 1) \<and>
   encode_board (example_board\<lparr>has_kingside_castling_rights := (\<lambda>c. False)\<rparr>) ! 13 =
     replicate 8 (replicate 8 0) \<and>
   encode_board (example_board\<lparr>has_kingside_castling_rights := (\<lambda>c. False)\<rparr>) ! 14 =
     encode_board example_board ! 14 \<and>
   encode_board (example_board\<lparr>has_kingside_castling_rights := (\<lambda>c. False)\<rparr>) ! 4 =
     encode_board example_board ! 4"
proof -
  let ?P' = "example_board\<lparr>has_kingside_castling_rights := (\<lambda>c. False)\<rparr>"
  have others: "\<forall>k'. k' \<noteq> WK \<longrightarrow> has_castling_right ?P' k' = has_castling_right example_board k'"
  proof (intro allI impI)
    fix k' assume "k' \<noteq> WK"
    then show "has_castling_right ?P' k' = has_castling_right example_board k'"
      by (cases k') (simp_all add: example_board_def)
  qed
  show ?thesis
    using encode_board_castling_frame [of ?P' example_board WK, OF _ _ _ _ _ others]
    by (simp add: example_board_def CASTLING_WK_CHANNEL_def)
qed

section \<open>Properties of the evaluation network\<close>

lemma then_do_Inr_iff: "then_do r f = Inr z \<longleftrightarrow> (\<exists>y. r = Inr y \<and> f y = Inr z)"
  by (cases r) (simp_all add: then_do_def)

lemma then_do_Inr [simp]: "then_do (Inr y) f = f y"
  by (simp add: then_do_def)

lemma then_do_Inl [simp]: "then_do (Inl e) f = Inl e"
  by (simp add: then_do_def)

lemma conv3_Inr_D:
  assumes "conv_shape cv i oc 3 1" "conv2d_forward cv x = Inr y"
  shows "dimC x = i \<and> 1 \<le> dimH x \<and> 1 \<le> dimW x \<and> dims4 y = (dimB x, oc, dimH x, dimW x)"
  using assms by (auto simp: conv_shape_def conv2d_forward_def dims4_def split: if_splits)

lemma conv3_ok:
  assumes "conv_shape cv i oc 3 1" "dimC x = i" "1 \<le> dimH x" "1 \<le> dimW x"
  shows "\<exists>y. conv2d_forward cv x = Inr y"
  using assms by (auto simp: conv_shape_def conv2d_forward_def)

lemma conv1_Inr_D:
  assumes "conv_shape cv i oc 1 0" "conv2d_forward cv x = Inr y"
  shows "dimC x = i \<and> 1 \<le> dimH x \<and> 1 \<le> dimW x \<and> dims4 y = (dimB x, oc, dimH x, dimW x)"
  using assms by (auto simp: conv_shape_def conv2d_forward_def dims4_def split: if_splits)

lemma conv1_ok:
  assumes "conv_shape cv i oc 1 0" "dimC x = i" "1 \<le> dimH x" "1 \<le> dimW x"
  shows "\<exists>y. conv2d_forward cv x = Inr y"
  using assms by (auto simp: conv_shape_def conv2d_forward_def)

lemma bn_Inr_D:
  assumes "batchnorm2d_forward tr bn x = Inr y"
  shows "dimC x = num_features bn \<and> \<not> (tr \<and> dimB x * dimH x * dimW x = 1) \<and> dims4 y = dims4 x"
  using assms by (auto simp: batchnorm2d_forward_def dims4_def Let_def split: if_splits)

lemma bn_ok:
  assumes "dimC x = num_features bn" "\<not> (tr \<and> dimB x * dimH x * dimW x = 1)"
  shows "\<exists>y. batchnorm2d_forward tr bn x = Inr y"
  using assms by (auto simp: batchnorm2d_forward_def Let_def)

lemma dims4_relu [simp]: "dims4 (relu x) = dims4 x"
  by (simp add: dims4_def relu_def)

lemma tensor_add_Inr_D:
  assumes "tensor_add x y = Inr z"
  shows "dims4 x = dims4 y \<and> dims4 z = dims4 x"
  using assms by (auto simp: tensor_add_def dims4_def split: if_splits)

lemma tensor_add_ok: "dims4 x = dims4 y \<Longrightarrow> \<exists>z. tensor_add x y = Inr z"
  by (simp add: tensor_add_def dims4_def)

lemma dims4_D:
  "dims4 x = (b, c, h, w) \<Longrightarrow> dimB x = b \<and> dimC x = c \<and> dimH x = h \<and> dimW x = w"
  by (simp add: dims4_def)

lemma ResidualBlock_Inr_D:
  assumes arch: "ResidualBlock_arch f blk" and run: "ResidualBlock_forward tr blk x = Inr y"
  shows "dimC x = f \<and> 1 \<le> dimH x \<and> 1 \<le> dimW x \<and> \<not> (tr \<and> dimB x * dimH x * dimW x = 1)
         \<and> dims4 y = dims4 x"
proof -
  from run obtain a b c d e where
    a: "conv2d_forward (conv1 blk) x = Inr a" and
    b: "batchnorm2d_forward tr (bn1 blk) a = Inr b" and
    c: "conv2d_forward (conv2 blk) (relu b) = Inr c" and
    d: "batchnorm2d_forward tr (bn2 blk) c = Inr d" and
    e: "tensor_add d x = Inr e" and
    y: "y = relu e"
    by (auto simp: ResidualBlock_forward_def Let_def then_do_Inr_iff)
  from arch have c1: "conv_shape (conv1 blk) f f 3 1" by (simp add: ResidualBlock_arch_def)
  note A = conv3_Inr_D [OF c1 a]
  note B = bn_Inr_D [OF b]
  note E = tensor_add_Inr_D [OF e]
  from A B have "\<not> (tr \<and> dimB x * dimH x * dimW x = 1)" by (auto simp: dims4_def)
  moreover have "dims4 y = dims4 x" using y E by simp
  ultimately show ?thesis using A by simp
qed

lemma ResidualBlock_ok:
  assumes arch: "ResidualBlock_arch f blk"
    and x: "dimC x = f" "1 \<le> dimH x" "1 \<le> dimW x" "\<not> (tr \<and> dimB x * dimH x * dimW x = 1)"
  shows "\<exists>y. ResidualBlock_forward tr blk x = Inr y"
proof -
  from arch have c1: "conv_shape (conv1 blk) f f 3 1" and n1: "num_features (bn1 blk) = f"
    and c2: "conv_shape (conv2 blk) f f 3 1" and n2: "num_features (bn2 blk) = f"
    by (simp_all add: ResidualBlock_arch_def)
  obtain a where a: "conv2d_forward (conv1 blk) x = Inr a"
    using conv3_ok [OF c1 x(1-3)] by blast
  have da: "dims4 a = (dimB x, f, dimH x, dimW x)" using conv3_Inr_D [OF c1 a] by simp
  obtain b where b: "batchnorm2d_forward tr (bn1 blk) a = Inr b"
    using bn_ok [of a "bn1 blk" tr] n1 x(4) dims4_D [OF da] by auto
  have db: "dims4 (relu b) = (dimB x, f, dimH x, dimW x)" using bn_Inr_D [OF b] da by simp
  obtain c where c: "conv2d_forward (conv2 blk) (relu b) = Inr c"
    using conv3_ok [OF c2, of "relu b"] x dims4_D [OF db] by auto
  have dc: "dims4 c = (dimB x, f, dimH x, dimW x)"
    using conv3_Inr_D [OF c2 c] dims4_D [OF db] by simp
  obtain d where d: "batchnorm2d_forward tr (bn2 blk) c = Inr d"
    using bn_ok [of c "bn2 blk" tr] n2 x(4) dims4_D [OF dc] by auto
  have dd: "dims4 d = dims4 x" using bn_Inr_D [OF d] dc x(1) by (simp add: dims4_def)
  obtain e where e: "tensor_add d x = Inr e" using tensor_add_ok [OF dd] by blast
  show ?thesis using a b c d e by (simp add: ResidualBlock_forward_def Let_def)
qed

lemma run_blocks_dims:
  assumes "list_all (ResidualBlock_arch f) blks" "run_blocks tr blks x = Inr y"
  shows "dims4 y = dims4 x"
  using assms
proof (induction blks arbitrary: x)
  case Nil
  then show ?case by simp
next
  case (Cons blk blks)
  from Cons.prems(2) obtain z where z: "ResidualBlock_forward tr blk x = Inr z"
    and rest: "run_blocks tr blks z = Inr y"
    by (auto simp: then_do_Inr_iff)
  from Cons.prems(1) have "ResidualBlock_arch f blk" "list_all (ResidualBlock_arch f) blks"
    by simp_all
  then show ?case using Cons.IH [OF _ rest] ResidualBlock_Inr_D [OF _ z] by simp
qed

lemma run_blocks_ok:
  assumes "list_all (ResidualBlock_arch f) blks"
    and "dimC x = f" "1 \<le> dimH x" "1 \<le> dimW x" "\<not> (tr \<and> dimB x * dimH x * dimW x = 1)"
  shows "\<exists>y. run_blocks tr blks x = Inr y"
  using assms
proof (induction blks arbitrary: x)
  case Nil
  then show ?case by simp
next
  case (Cons blk blks)
  from Cons.prems(1) have arch: "ResidualBlock_arch f blk"
    and rest: "list_all (ResidualBlock_arch f) blks" by simp_all
  obtain z where z: "ResidualBlock_forward tr blk x = Inr z"
    using ResidualBlock_ok [OF arch Cons.prems(2-5)] by blast
  have "dims4 z = dims4 x" using ResidualBlock_Inr_D [OF arch z] by simp
  then have "dimC z = f" "1 \<le> dimH z" "1 \<le> dimW z" "\<not> (tr \<and> dimB z * dimH z * dimW z = 1)"
    using Cons.prems(2-5) by (simp_all add: dims4_def)
  from Cons.IH [OF rest this] z show ?case by simp
qed

lemma then_do_assoc: "then_do (then_do r f) g = then_do r (\<lambda>y. then_do (f y) g)"
  by (cases r) simp_all

lemma ChessNet_forward_parts:
  "ChessNet_forward tr m x =
     then_do (trunk_forward tr m x) (\<lambda>y.
     then_do (policy_head tr m y) (\<lambda>policy_logits.
     then_do (value_head tr m y) (\<lambda>v.
     Inr (policy_logits, v))))"
  by (simp add: ChessNet_forward_def trunk_forward_def policy_head_def value_head_def
      then_do_assoc Let_def)

lemma trunk_Inr_D:
  assumes arch: "ChessNet_arch n f m" and run: "trunk_forward tr m x = Inr y"
  shows "dimC x = 18 \<and> 1 \<le> dimH x \<and> 1 \<le> dimW x \<and> \<not> (tr \<and> dimB x * dimH x * dimW x = 1)
         \<and> dims4 y = (dimB x, f, dimH x, dimW x)"
proof -
  from run obtain a b where
    a: "conv2d_forward (initial_conv m) x = Inr a" and
    b: "batchnorm2d_forward tr (initial_bn m) a = Inr b" and
    y: "run_blocks tr (residual_blocks m) (relu b) = Inr y"
    by (auto simp: trunk_forward_def Let_def then_do_Inr_iff)
  from arch have c: "conv_shape (initial_conv m) 18 f 3 1"
    and blks: "list_all (ResidualBlock_arch f) (residual_blocks m)"
    by (simp_all add: ChessNet_arch_def)
  note A = conv3_Inr_D [OF c a]
  note B = bn_Inr_D [OF b]
  have "dims4 y = dims4 (relu b)" by (rule run_blocks_dims [OF blks y])
  then have "dims4 y = (dimB x, f, dimH x, dimW x)" using A B by simp
  moreover from A B have "\<not> (tr \<and> dimB x * dimH x * dimW x = 1)" by (auto simp: dims4_def)
  ultimately show ?thesis using A by simp
qed

lemma trunk_ok:
  assumes arch: "ChessNet_arch n f m"
    and x: "dimC x = 18" "1 \<le> dimH x" "1 \<le> dimW x" "\<not> (tr \<and> dimB x * dimH x * dimW x = 1)"
  shows "\<exists>y. trunk_forward tr m x = Inr y"
proof -
  from arch have c: "conv_shape (initial_conv m) 18 f 3 1"
    and n: "num_features (initial_bn m) = f"
    and blks: "list_all (ResidualBlock_arch f) (residual_blocks m)"
    by (simp_all add: ChessNet_arch_def)
  obtain a where a: "conv2d_forward (initial_conv m) x = Inr a"
    using conv3_ok [OF c x(1-3)] by blast
  have da: "dims4 a = (dimB x, f, dimH x, dimW x)" using conv3_Inr_D [OF c a] by simp
  obtain b where b: "batchnorm2d_forward tr (initial_bn m) a = Inr b"
    using bn_ok [of a "initial_bn m" tr] n x(4) dims4_D [OF da] by auto
  have db: "dims4 (relu b) = (dimB x, f, dimH x, dimW x)" using bn_Inr_D [OF b] da by simp
  obtain y where "run_blocks tr (residual_blocks m) (relu b) = Inr y"
    using run_blocks_ok [OF blks, of "relu b" tr] x dims4_D [OF db] by auto
  then show ?thesis using a b by (simp add: trunk_forward_def Let_def)
qed

lemma view_flat_Inr_D:
  assumes "view_flat x = Inr p"
  shows "1 \<le> dimB x \<and> rows p = dimB x \<and> cols p = dimC x * dimH x * dimW x"
  using assms by (auto simp: view_flat_def split: if_splits)

lemma view_flat_ok: "1 \<le> dimB x \<Longrightarrow> \<exists>p. view_flat x = Inr p"
  by (simp add: view_flat_def)

lemma linear_Inr_D:
  assumes "linear_shape fc i oc" "linear_forward fc p = Inr q"
  shows "cols p = i \<and> rows q = rows p \<and> cols q = oc"
  using assms by (auto simp: linear_shape_def linear_forward_def split: if_splits)

lemma linear_ok:
  assumes "linear_shape fc i oc" "cols p = i"
  shows "\<exists>q. linear_forward fc p = Inr q"
  using assms by (simp add: linear_shape_def linear_forward_def)

lemma policy_head_Inr_D:
  assumes arch: "ChessNet_arch n f m" and run: "policy_head tr m x = Inr p"
  shows "dimC x = f \<and> 1 \<le> dimB x \<and> dimH x * dimW x = 64 \<and> rows p = dimB x \<and> cols p = 4096"
proof -
  from run obtain a b v where
    a: "conv2d_forward (policy_conv m) x = Inr a" and
    b: "batchnorm2d_forward tr (policy_bn m) a = Inr b" and
    v: "view_flat (relu b) = Inr v" and
    p: "linear_forward (policy_fc m) v = Inr p"
    by (auto simp: policy_head_def Let_def then_do_Inr_iff)
  from arch have c: "conv_shape (policy_conv m) f 2 1 0"
    and l: "linear_shape (policy_fc m) 128 4096"
    by (simp_all add: ChessNet_arch_def)
  note A = conv1_Inr_D [OF c a]
  note B = bn_Inr_D [OF b]
  note V = view_flat_Inr_D [OF v]
  note P = linear_Inr_D [OF l p]
  have "dims4 (relu b) = (dimB x, 2, dimH x, dimW x)" using A B by simp
  note D = dims4_D [OF this]
  have "2 * dimH x * dimW x = 128" using V P D by simp
  then have "dimH x * dimW x = 64" by simp
  then show ?thesis using A V P D by simp
qed

lemma policy_head_ok:
  assumes arch: "ChessNet_arch n f m"
    and x: "dimC x = f" "1 \<le> dimB x" "dimH x * dimW x = 64"
  shows "\<exists>p. policy_head tr m x = Inr p"
proof -
  from arch have c: "conv_shape (policy_conv m) f 2 1 0"
    and n: "num_features (policy_bn m) = 2"
    and l: "linear_shape (policy_fc m) 128 4096"
    by (simp_all add: ChessNet_arch_def)
  have hw: "1 \<le> dimH x" "1 \<le> dimW x"
    using x(3) by (cases "dimH x"; cases "dimW x"; simp)+
  have big: "dimB x * dimH x * dimW x \<noteq> 1" using x(2,3) by (simp add: mult.assoc)
  obtain a where a: "conv2d_forward (policy_conv m) x = Inr a"
    using conv1_ok [OF c x(1) hw] by blast
  have da: "dims4 a = (dimB x, 2, dimH x, dimW x)" using conv1_Inr_D [OF c a] by simp
  obtain b where b: "batchnorm2d_forward tr (policy_bn m) a = Inr b"
    using bn_ok [of a "policy_bn m" tr] n big dims4_D [OF da] by auto
  have db: "dims4 (relu b) = (dimB x, 2, dimH x, dimW x)" using bn_Inr_D [OF b] da by simp
  obtain v where v: "view_flat (relu b) = Inr v"
    using view_flat_ok [of "relu b"] x(2) dims4_D [OF db] by auto
  have "cols v = 2 * (dimH x * dimW x)"
    using view_flat_Inr_D [OF v] dims4_D [OF db] by (simp add: mult.assoc)
  then have "cols v = 128" using x(3) by simp
  then obtain p where "linear_forward (policy_fc m) v = Inr p"
    using linear_ok [OF l] by blast
  then show ?thesis using a b v by (simp add: policy_head_def Let_def)
qed

lemma value_head_Inr_D:
  assumes arch: "ChessNet_arch n f m" and run: "value_head tr m x = Inr q"
  shows "dimC x = f \<and> 1 \<le> dimB x \<and> dimH x * dimW x = 64 \<and> rows q = dimB x \<and> cols q = 1
         \<and> (\<forall>b k. - 1 < elem2 q b k \<and> elem2 q b k < 1)"
proof -
  from run obtain a b v h1 h2 where
    a: "conv2d_forward (value_conv m) x = Inr a" and
    b: "batchnorm2d_forward tr (value_bn m) a = Inr b" and
    v: "view_flat (relu b) = Inr v" and
    h1: "linear_forward (value_fc1 m) v = Inr h1" and
    h2: "linear_forward (value_fc2 m) (relu2 h1) = Inr h2" and
    q: "q = tanh2 h2"
    by (auto simp: value_head_def Let_def then_do_Inr_iff)
  from arch have c: "conv_shape (value_conv m) f 1 1 0"
    and l1: "linear_shape (value_fc1 m) 64 256"
    and l2: "linear_shape (value_fc2 m) 256 1"
    by (simp_all add: ChessNet_arch_def)
  note A = conv1_Inr_D [OF c a]
  note B = bn_Inr_D [OF b]
  note V = view_flat_Inr_D [OF v]
  note H1 = linear_Inr_D [OF l1 h1]
  note H2 = linear_Inr_D [OF l2 h2]
  have "dims4 (relu b) = (dimB x, 1, dimH x, dimW x)" using A B by simp
  note D = dims4_D [OF this]
  have "dimH x * dimW x = 64" using V H1 D by simp
  moreover have "rows q = dimB x" "cols q = 1"
    using q H2 H1 V D by (simp_all add: tanh2_def relu2_def)
  moreover have "\<forall>b k. - 1 < elem2 q b k \<and> elem2 q b k < 1"
    using q by (simp add: tanh2_def tanh_real_gt_neg1 tanh_real_lt_1)
  ultimately show ?thesis using A V D by simp
qed

lemma value_head_ok:
  assumes arch: "ChessNet_arch n f m"
    and x: "dimC x = f" "1 \<le> dimB x" "dimH x * dimW x = 64"
  shows "\<exists>q. value_head tr m x = Inr q"
proof -
  from arch have c: "conv_shape (value_conv m) f 1 1 0"
    and n: "num_features (value_bn m) = 1"
    and l1: "linear_shape (value_fc1 m) 64 256"
    and l2: "linear_shape (value_fc2 m) 256 1"
    by (simp_all add: ChessNet_arch_def)
  have hw: "1 \<le> dimH x" "1 \<le> dimW x"
    using x(3) by (cases "dimH x"; cases "dimW x"; simp)+
  have big: "dimB x * dimH x * dimW x \<noteq> 1" using x(2,3) by (simp add: mult.assoc)
  obtain a where a: "conv2d_forward (value_conv m) x = Inr a"
    using conv1_ok [OF c x(1) hw] by blast
  have da: "dims4 a = (dimB x, 1, dimH x, dimW x)" using conv1_Inr_D [OF c a] by simp
  obtain b where b: "batchnorm2d_forward tr (value_bn m) a = Inr b"
    using bn_ok [of a "value_bn m" tr] n big dims4_D [OF da] by auto
  have db: "dims4 (relu b) = (dimB x, 1, dimH x, dimW x)" using bn_Inr_D [OF b] da by simp
  obtain v where v: "view_flat (relu b) = Inr v"
    using view_flat_ok [of "relu b"] x(2) dims4_D [OF db] by auto
  have "cols v = 64" using view_flat_Inr_D [OF v] dims4_D [OF db] x(3) by (simp add: mult.assoc)
  then obtain h1 where h1: "linear_forward (value_fc1 m) v = Inr h1"
    using linear_ok [OF l1] by blast
  have "cols (relu2 h1) = 256" using linear_Inr_D [OF l1 h1] by (simp add: relu2_def)
  then obtain h2 where "linear_forward (value_fc2 m) (relu2 h1) = Inr h2"
    using linear_ok [OF l2] by blast
  then show ?thesis using a b v h1 by (simp add: value_head_def Let_def)
qed

lemma ChessNet_forward_Inr_D:
  assumes arch: "ChessNet_arch n f m" and run: "ChessNet_forward tr m x = Inr (p, q)"
  shows "dimC x = 18 \<and> 1 \<le> dimB x \<and> dimH x * dimW x = 64
         \<and> rows p = dimB x \<and> cols p = 4096 \<and> rows q = dimB x \<and> cols q = 1
         \<and> (\<forall>b k. - 1 < elem2 q b k \<and> elem2 q b k < 1)"
proof -
  from run obtain y where
    y: "trunk_forward tr m x = Inr y" and
    p: "policy_head tr m y = Inr p" and
    q: "value_head tr m y = Inr q"
    by (auto simp: ChessNet_forward_parts then_do_Inr_iff)
  note T = trunk_Inr_D [OF arch y]
  then have "dims4 y = (dimB x, f, dimH x, dimW x)" by simp
  note D = dims4_D [OF this]
  show ?thesis using T D policy_head_Inr_D [OF arch p] value_head_Inr_D [OF arch q] by simp
qed

lemma ChessNet_forward_ok:
  assumes arch: "ChessNet_arch n f m"
    and x: "dimC x = 18" "1 \<le> dimB x" "dimH x * dimW x = 64"
  shows "\<exists>p q. ChessNet_forward tr m x = Inr (p, q)"
proof -
  have hw: "1 \<le> dimH x" "1 \<le> dimW x"
    using x(3) by (cases "dimH x"; cases "dimW x"; simp)+
  have big: "dimB x * dimH x * dimW x \<noteq> 1" using x(2,3) by (simp add: mult.assoc)
  obtain y where y: "trunk_forward tr m x = Inr y"
    using trunk_ok [OF arch x(1) hw] big by blast
  have "dims4 y = (dimB x, f, dimH x, dimW x)" using trunk_Inr_D [OF arch y] by simp
  note D = dims4_D [OF this]
  obtain p where p: "policy_head tr m y = Inr p"
    using policy_head_ok [OF arch, of y tr] D x by auto
  obtain q where q: "value_head tr m y = Inr q"
    using value_head_ok [OF arch, of y tr] D x by auto
  show ?thesis using y p q by (simp add: ChessNet_forward_parts)
qed

lemma ResidualBlock_init_arch: "ResidualBlock_arch f (ResidualBlock_init f w1 w2)"
  by (simp add: ResidualBlock_arch_def ResidualBlock_init_def conv_shape_def nn_Conv2d_def
      nn_BatchNorm2d_def)

lemma ChessNet_init_arch: "ChessNet_arch n f (ChessNet_init n f iv)"
  by (simp add: ChessNet_arch_def ChessNet_init_def conv_shape_def linear_shape_def
      nn_Conv2d_def nn_BatchNorm2d_def nn_Linear_def NUM_CHANNELS_def BOARD_SIZE_def
      POLICY_OUTPUT_SIZE_def py_range_def list_all_iff ResidualBlock_init_arch)

lemma py_range_neg: "n \<le> 0 \<Longrightarrow> py_range n = []"
  by (simp add: py_range_def)

lemma ResidualBlock_init_count:
  "sum_list (ResidualBlock_parameters (ResidualBlock_init f w1 w2)) = 18 * f * f + 4 * f"
  by (simp add: ResidualBlock_parameters_def ResidualBlock_init_def conv2d_parameters_def
      batchnorm2d_parameters_def nn_Conv2d_def nn_BatchNorm2d_def)

lemma blocks_count:
  "sum_list (concat (map (ResidualBlock_parameters \<circ> (\<lambda>k. ResidualBlock_init f (w1 k) (w2 k)))
      ks)) = length ks * (18 * f * f + 4 * f)"
  by (induction ks) (simp_all add: ResidualBlock_init_count)

lemma count_parameters_init:
  "count_parameters (ChessNet_init n f iv) = nat n * (18 * f * f + 4 * f) + 167 * f + 545287"
proof -
  have "length (py_range n) = nat n" by (simp add: py_range_def)
  then show ?thesis
    by (simp add: count_parameters_def ChessNet_parameters_def ChessNet_init_def blocks_count
        conv2d_parameters_def batchnorm2d_parameters_def linear_parameters_def
        nn_Conv2d_def nn_BatchNorm2d_def nn_Linear_def NUM_CHANNELS_def BOARD_SIZE_def
        POLICY_OUTPUT_SIZE_def)
qed

text \<open>
  C8: the number of trainable parameters of a freshly constructed network is strictly
  increasing in the number of blocks (for at least zero blocks and at least one filter)
  with the filters fixed, and strictly increasing in the number of filters with the
  blocks fixed.
\<close>
theorem count_parameters_strictly_increasing:
  "(0 \<le> n \<and> n < n' \<and> 1 \<le> f \<longrightarrow>
      count_parameters (ChessNet_init n f iv) < count_parameters (ChessNet_init n' f iv'))
   \<and> (0 \<le> n \<and> 1 \<le> f \<and> f < f' \<longrightarrow>
      count_parameters (ChessNet_init n f iv) < count_parameters (ChessNet_init n f' iv'))"
proof (intro conjI impI)
  assume a: "0 \<le> n \<and> n < n' \<and> 1 \<le> f"
  then have "nat n < nat n'" by simp
  moreover have "0 < 18 * f * f + 4 * f" using a by simp
  ultimately have "nat n * (18 * f * f + 4 * f) < nat n' * (18 * f * f + 4 * f)"
    by simp
  then have "nat n * (18 * f * f + 4 * f) + 167 * f + 545287
      < nat n' * (18 * f * f + 4 * f) + 167 * f + 545287"
    by linarith
  then show "count_parameters (ChessNet_init n f iv) < count_parameters (ChessNet_init n' f iv')"
    by (simp only: count_parameters_init)
next
  assume a: "0 \<le> n \<and> 1 \<le> f \<and> f < f'"
  then have "f * f \<le> f' * f'" by (simp add: mult_mono)
  then have "18 * f * f + 4 * f \<le> 18 * f' * f' + 4 * f'" using a by simp
  then have "nat n * (18 * f * f + 4 * f) \<le> nat n * (18 * f' * f' + 4 * f')"
    by (rule mult_le_mono2)
  moreover have "167 * f < 167 * f'" using a by simp
  ultimately have "nat n * (18 * f * f + 4 * f) + 167 * f + 545287
      < nat n * (18 * f' * f' + 4 * f') + 167 * f' + 545287"
    by linarith
  then show
    "count_parameters (ChessNet_init n f iv) < count_parameters (ChessNet_init n f' iv')"
    by (simp only: count_parameters_init)
qed

theorem count_parameters_strictly_increasing_witness:
  "count_parameters (ChessNet_init 3 128 zero_values)
     < count_parameters (ChessNet_init 12 128 zero_values)
   \<and> count_parameters (ChessNet_init 6 64 zero_values)
     < count_parameters (ChessNet_init 6 256 zero_values)"
  using count_parameters_strictly_increasing [of 3 12 128 zero_values zero_values]
    count_parameters_strictly_increasing [of 6 6 64 zero_values zero_values 256]
  by simp

lemma ChessNet_forward_num_blocks:
  "residual_blocks m' = residual_blocks m \<Longrightarrow> initial_conv m' = initial_conv m \<Longrightarrow>
   initial_bn m' = initial_bn m \<Longrightarrow> policy_conv m' = policy_conv m \<Longrightarrow>
   policy_bn m' = policy_bn m \<Longrightarrow> policy_fc m' = policy_fc m \<Longrightarrow>
   value_conv m' = value_conv m \<Longrightarrow> value_bn m' = value_bn m \<Longrightarrow>
   value_fc1 m' = value_fc1 m \<Longrightarrow> value_fc2 m' = value_fc2 m \<Longrightarrow>
   ChessNet_forward tr m' x = ChessNet_forward tr m x"
  by (simp add: ChessNet_forward_def)

text \<open>
  C10: for a negative number of blocks the constructor has no failing branch and no
  validation: the attribute keeps the negative number, the list of residual blocks is
  empty, and \<open>forward\<close> computes what the network built with zero blocks computes. The
  trunk is the input projection alone, feeding the two heads directly.
\<close>
theorem ChessNet_negative_num_blocks:
  assumes "n < 0"
  shows "num_blocks (ChessNet_init n f iv) = n
         \<and> residual_blocks (ChessNet_init n f iv) = []
         \<and> ChessNet_forward training (ChessNet_init n f iv) x
             = ChessNet_forward training (ChessNet_init 0 f iv) x
         \<and> trunk_forward training (ChessNet_init n f iv) x
             = then_do (conv2d_forward (initial_conv (ChessNet_init n f iv)) x) (\<lambda>a.
               then_do (batchnorm2d_forward training (initial_bn (ChessNet_init n f iv)) a) (\<lambda>b.
               Inr (relu b)))"
proof -
  have r: "residual_blocks (ChessNet_init n f iv) = []"
    using assms by (simp add: ChessNet_init_def py_range_neg)
  have r0: "residual_blocks (ChessNet_init 0 f iv) = []"
    by (simp add: ChessNet_init_def py_range_neg)
  have "ChessNet_forward training (ChessNet_init n f iv) x
          = ChessNet_forward training (ChessNet_init 0 f iv) x"
    by (rule ChessNet_forward_num_blocks) (simp_all add: r r0, simp_all add: ChessNet_init_def)
  moreover have "trunk_forward training (ChessNet_init n f iv) x
             = then_do (conv2d_forward (initial_conv (ChessNet_init n f iv)) x) (\<lambda>a.
               then_do (batchnorm2d_forward training (initial_bn (ChessNet_init n f iv)) a) (\<lambda>b.
               Inr (relu b)))"
    by (simp add: trunk_forward_def r Let_def)
  moreover have "num_blocks (ChessNet_init n f iv) = n" by (simp add: ChessNet_init_def)
  ultimately show ?thesis using r by simp
qed

theorem ChessNet_negative_num_blocks_witness:
  "num_blocks (ChessNet_init (- 3) 128 zero_values) = - 3
   \<and> residual_blocks (ChessNet_init (- 3) 128 zero_values) = []
   \<and> ChessNet_forward False (ChessNet_init (- 3) 128 zero_values) (torch_zeros 1 18 8 8)
       = ChessNet_forward False (ChessNet_init 0 128 zero_values) (torch_zeros 1 18 8 8)"
  using ChessNet_negative_num_blocks [of "- 3" 128 zero_values False "torch_zeros 1 18 8 8"]
  by simp

text \<open>
  C1 (amended): for every network built by the constructor with at least one filter,
  in either mode, \<open>forward\<close> fails with a shape error exactly on the inputs whose channel
  count is not 18, or whose height times width is not 64, or whose batch is empty.
  An input of 18 channels whose spatial shape is not 8 by 8 but has 64 cells is
  accepted.
\<close>
theorem ChessNet_forward_fails_iff:
  assumes "ChessNet_arch n f m" "1 \<le> f"
  shows "(\<exists>e. ChessNet_forward training m x = Inl e)
           \<longleftrightarrow> (dimC x \<noteq> 18 \<or> dimH x * dimW x \<noteq> 64 \<or> dimB x = 0)"
proof
  assume "\<exists>e. ChessNet_forward training m x = Inl e"
  then have "\<not> (\<exists>p q. ChessNet_forward training m x = Inr (p, q))" by auto
  then have "\<not> (dimC x = 18 \<and> 1 \<le> dimB x \<and> dimH x * dimW x = 64)"
    using ChessNet_forward_ok [OF assms(1), of x training] by blast
  then show "dimC x \<noteq> 18 \<or> dimH x * dimW x \<noteq> 64 \<or> dimB x = 0" by auto
next
  assume bad: "dimC x \<noteq> 18 \<or> dimH x * dimW x \<noteq> 64 \<or> dimB x = 0"
  show "\<exists>e. ChessNet_forward training m x = Inl e"
  proof (cases "ChessNet_forward training m x")
    case (Inl e)
    then show ?thesis by blast
  next
    case (Inr r)
    obtain p q where "r = (p, q)" by (cases r)
    with Inr have "ChessNet_forward training m x = Inr (p, q)" by simp
    from ChessNet_forward_Inr_D [OF assms(1) this] bad show ?thesis by auto
  qed
qed

theorem ChessNet_forward_fails_iff_witness:
  "(\<exists>e. ChessNet_forward True (ChessNet_init 6 128 zero_values) (torch_zeros 4 17 8 8) = Inl e)
   \<and> (\<exists>e. ChessNet_forward True (ChessNet_init 6 128 zero_values) (torch_zeros 4 18 8 7) = Inl e)
   \<and> \<not> (\<exists>e. ChessNet_forward True (ChessNet_init 6 128 zero_values) (torch_zeros 4 18 8 8) = Inl e)"
  using ChessNet_forward_fails_iff [OF ChessNet_init_arch, of 128 True 6 zero_values]
  by (simp add: torch_zeros_def)

text \<open>
  The statement of C1 as first worded fails: the default network in training mode
  accepts an input of shape \<open>[1, 18, 4, 16]\<close> and returns a policy of shape
  \<open>[1, 4096]\<close> and a value of shape \<open>[1, 1]\<close>.
\<close>

theorem ChessNet_forward_accepts_4x16:
  "dimC (torch_zeros 1 18 4 16) = 18
   \<and> (dimH (torch_zeros 1 18 4 16), dimW (torch_zeros 1 18 4 16)) \<noteq> (8, 8)
   \<and> map_sum id (\<lambda>(policy, v). (rows policy, cols policy, rows v, cols v))
       (ChessNet_forward True (ChessNet_init 6 128 zero_values) (torch_zeros 1 18 4 16))
     = Inr (1, 4096, 1, 1)"
proof -
  let ?x = "torch_zeros 1 18 4 16"
  let ?m = "ChessNet_init 6 128 zero_values"
  have arch: "ChessNet_arch 6 128 ?m" by (rule ChessNet_init_arch)
  have x: "dimC ?x = 18" "1 \<le> dimB ?x" "dimH ?x * dimW ?x = 64"
    by (simp_all add: torch_zeros_def)
  obtain p q where r: "ChessNet_forward True ?m ?x = Inr (p, q)"
    using ChessNet_forward_ok [OF arch x] by blast
  from ChessNet_forward_Inr_D [OF arch r]
  have "rows p = 1" "cols p = 4096" "rows q = 1" "cols q = 1"
    by (simp_all add: torch_zeros_def)
  then show ?thesis using r by (simp add: torch_zeros_def)
qed



lemma relu_dims [simp]:
  "dimB (relu x) = dimB x" "dimC (relu x) = dimC x" "dimH (relu x) = dimH x"
  "dimW (relu x) = dimW x"
  by (simp_all add: relu_def)



























text \<open>
  The restriction to inference mode matters: in training mode the normalisation uses
  the statistics of the batch, and the output for a sample changes with the batch
  around it.
\<close>

lemma sum_lessThan_2: "(\<Sum>i<2::nat. g i) = g 0 + (g 1 :: real)"
  by (simp add: eval_nat_numeral lessThan_Suc)

lemma two_samples_sel:
  "dimB two_samples = 2" "dimC two_samples = 1" "dimH two_samples = 1" "dimW two_samples = 2"
  "elem two_samples b c i j = (if b = 0 then 0 else 2)"
  by (simp_all add: two_samples_def)

lemma single_sample_sel:
  "dimB (single_sample x b) = 1" "dimC (single_sample x b) = dimC x"
  "dimH (single_sample x b) = dimH x" "dimW (single_sample x b) = dimW x"
  "elem (single_sample x b) b' c i j = elem x b c i j"
  by (simp_all add: single_sample_def)

lemma batch_mean_two: "batch_mean two_samples 0 = 1"
  by (simp add: batch_mean_def two_samples_sel sum_lessThan_2)

lemma batch_var_two: "batch_var two_samples 0 = 1"
  by (simp add: batch_var_def batch_mean_two two_samples_sel sum_lessThan_2)

lemma batch_mean_single: "batch_mean (single_sample two_samples (Suc 0)) 0 = 2"
  by (simp add: batch_mean_def single_sample_sel two_samples_sel sum_lessThan_2)

lemma batchnorm2d_training_depends_on_batch:
  "\<exists>y z. batchnorm2d_forward True (nn_BatchNorm2d 1) two_samples = Inr y
       \<and> batchnorm2d_forward True (nn_BatchNorm2d 1) (single_sample two_samples 1) = Inr z
       \<and> elem y 1 0 0 0 \<noteq> elem z 0 0 0 0"
proof -
  have "0 < sqrt (1 + bn_eps)" by (simp add: bn_eps_def)
  then have "1 / sqrt (1 + bn_eps) \<noteq> 0" by simp
  then show ?thesis
    by (simp add: batchnorm2d_forward_def nn_BatchNorm2d_def Let_def batch_mean_two
        batch_var_two batch_mean_single two_samples_sel single_sample_sel)
qed

end
